theory Spec2Isabelle
  imports Main "HOL-Library.Word" "HOL-Library.Signed_Division"
begin

unbundle bit_operations_syntax

section \<open>Machine types\<close>

text \<open>
  The C++ fixed-width integers are words of their width.  A \<^verbatim>\<open>double\<close> only ever
  crosses the wire through \<^verbatim>\<open>memcpy\<close> to and from a \<^verbatim>\<open>uint64_t\<close>, so a double is
  modelled as its 64-bit pattern: every pattern (NaN payloads, infinities, both zeros) is a
  value of the type.  \<^verbatim>\<open>int32_t\<close> and \<^verbatim>\<open>int\<close> are 32-bit words read with \<open>sint\<close> and
  compared with \<open><s\<close> and \<open>\<le>s\<close>; \<^verbatim>\<open>int64_t\<close> likewise with 64 bits.
\<close>

type_synonym u8 = "8 word"
type_synonym u16 = "16 word"
type_synonym u32 = "32 word"
type_synonym u64 = "64 word"
type_synonym i32 = "32 word"
type_synonym i64 = "64 word"
type_synonym double_bits = "64 word"

text \<open>The byte order of the machine the sender runs on.\<close>

datatype host = LittleEndianHost | BigEndianHost

text \<open>
  The object representation of an integer in the host's memory: what
  \<^verbatim>\<open>std::memcpy(dst, &v, sizeof v)\<close> writes at \<^verbatim>\<open>dst\<close>.
\<close>

definition object16 :: "host \<Rightarrow> u16 \<Rightarrow> u8 list" where
  "object16 h v =
     (case h of
        LittleEndianHost \<Rightarrow> [ucast v, ucast (drop_bit 8 v)]
      | BigEndianHost \<Rightarrow> [ucast (drop_bit 8 v), ucast v])"

definition object32 :: "host \<Rightarrow> u32 \<Rightarrow> u8 list" where
  "object32 h v =
     (case h of
        LittleEndianHost \<Rightarrow>
          [ucast v, ucast (drop_bit 8 v), ucast (drop_bit 16 v), ucast (drop_bit 24 v)]
      | BigEndianHost \<Rightarrow>
          [ucast (drop_bit 24 v), ucast (drop_bit 16 v), ucast (drop_bit 8 v), ucast v])"

definition object64 :: "host \<Rightarrow> u64 \<Rightarrow> u8 list" where
  "object64 h v =
     (case h of
        LittleEndianHost \<Rightarrow>
          [ucast v, ucast (drop_bit 8 v), ucast (drop_bit 16 v), ucast (drop_bit 24 v),
           ucast (drop_bit 32 v), ucast (drop_bit 40 v), ucast (drop_bit 48 v),
           ucast (drop_bit 56 v)]
      | BigEndianHost \<Rightarrow>
          [ucast (drop_bit 56 v), ucast (drop_bit 48 v), ucast (drop_bit 40 v),
           ucast (drop_bit 32 v), ucast (drop_bit 24 v), ucast (drop_bit 16 v),
           ucast (drop_bit 8 v), ucast v])"

text \<open>
  \<^verbatim>\<open>htons\<close> and \<^verbatim>\<open>htonl\<close> belong to the platform, not to the repository: by their
  contract they swap the bytes on a little-endian host and are the identity on a
  big-endian one.
\<close>

definition htons :: "host \<Rightarrow> u16 \<Rightarrow> u16" where
  "htons h v =
     (case h of
        LittleEndianHost \<Rightarrow> push_bit 8 (v AND 0x00FF) OR drop_bit 8 (v AND 0xFF00)
      | BigEndianHost \<Rightarrow> v)"

definition htonl :: "host \<Rightarrow> u32 \<Rightarrow> u32" where
  "htonl h v =
     (case h of
        LittleEndianHost \<Rightarrow>
          push_bit 24 (v AND 0x000000FF) OR push_bit 8 (v AND 0x0000FF00) OR
          drop_bit 8 (v AND 0x00FF0000) OR drop_bit 24 (v AND 0xFF000000)
      | BigEndianHost \<Rightarrow> v)"

section \<open>Sender: endian helpers (UdpDoubleSender.cpp)\<close>

text \<open>
  \<^verbatim>\<open>isLittleEndian_\<close> looks at the first byte of a \<^verbatim>\<open>uint16_t\<close> holding 1.  (A name
  cannot end in an underscore here, so the trailing underscore of the private members is
  dropped.)
\<close>

definition isLittleEndian :: "host \<Rightarrow> bool" where
  "isLittleEndian h = (hd (object16 h 1) = 1)"

text \<open>The portable branch of \<^verbatim>\<open>bswap64_\<close>; the compiler builtins compute the same swap.\<close>

definition bswap64 :: "u64 \<Rightarrow> u64" where
  "bswap64 x =
     push_bit 56 (x AND 0x00000000000000FF) OR
     push_bit 40 (x AND 0x000000000000FF00) OR
     push_bit 24 (x AND 0x0000000000FF0000) OR
     push_bit 8  (x AND 0x00000000FF000000) OR
     drop_bit 8  (x AND 0x000000FF00000000) OR
     drop_bit 24 (x AND 0x0000FF0000000000) OR
     drop_bit 40 (x AND 0x00FF000000000000) OR
     drop_bit 56 (x AND 0xFF00000000000000)"

definition hostToBE64 :: "host \<Rightarrow> u64 \<Rightarrow> u64" where
  "hostToBE64 h v = (if isLittleEndian h then bswap64 v else v)"

text \<open>
  Each writer stores its bytes at \<^verbatim>\<open>dst\<close>; the model returns the bytes stored, in
  address order.
\<close>

definition writeBE16 :: "host \<Rightarrow> u16 \<Rightarrow> u8 list" where
  "writeBE16 h v = object16 h (htons h v)"

definition writeBE32u :: "host \<Rightarrow> u32 \<Rightarrow> u8 list" where
  "writeBE32u h u = object32 h (htonl h u)"

definition writeBE32_fromBits :: "host \<Rightarrow> i32 \<Rightarrow> u8 list" where
  "writeBE32_fromBits h s = writeBE32u h s"

definition writeBE64_fromBits :: "host \<Rightarrow> i64 \<Rightarrow> u8 list" where
  "writeBE64_fromBits h s = object64 h (hostToBE64 h s)"

definition writeDoubleBE :: "host \<Rightarrow> double_bits \<Rightarrow> u8 list" where
  "writeDoubleBE h d = object64 h (hostToBE64 h d)"

section \<open>Sender: framing (UdpDoubleSender::sendWithSeq)\<close>

definition MAGIC :: u32 where "MAGIC = 0x55445044"
definition VERSION :: u16 where "VERSION = 1"
definition HEADER_BYTES :: nat where "HEADER_BYTES = 20"
definition DEFAULT_MAX_UDP_PAYLOAD :: i32 where "DEFAULT_MAX_UDP_PAYLOAD = 1400"
definition INT64_MIN :: i64 where "INT64_MIN = 0x8000000000000000"

text \<open>
  The encoding step of \<^verbatim>\<open>sendWithSeq\<close>: \<^verbatim>\<open>n = (uint16_t)count\<close>, the five header
  writes at offsets 0, 4, 6, 8 and 12, then the payload loop writing \<^verbatim>\<open>data[i]\<close> at
  \<^verbatim>\<open>20 + 8 * i\<close> for \<^verbatim>\<open>i < n\<close>.  The writes are contiguous, so the first
  \<^verbatim>\<open>20 + 8 * n\<close> bytes of the buffer are the concatenation below.
\<close>

definition encode_payload :: "host \<Rightarrow> u16 \<Rightarrow> double_bits list \<Rightarrow> u8 list" where
  "encode_payload h n vals = concat (map (\<lambda>i. writeDoubleBE h (vals ! i)) [0..<unat n])"

definition encode_frame :: "host \<Rightarrow> i32 \<Rightarrow> i32 \<Rightarrow> i64 \<Rightarrow> double_bits list \<Rightarrow> u8 list" where
  "encode_frame h count sq timestampNanos vals =
     (let n = (ucast count :: u16) in
        writeBE32u h MAGIC @
        writeBE16 h VERSION @
        writeBE16 h n @
        writeBE32_fromBits h sq @
        writeBE64_fromBits h timestampNanos @
        encode_payload h n vals)"

section \<open>Receiver: endian-aware readers (UdpDoubleReceiver.cpp)\<close>

datatype Endian = Big | Little

text \<open>A pointer \<^verbatim>\<open>p\<close> into the receive buffer is the list of bytes from \<^verbatim>\<open>p\<close> on.\<close>

definition read16 :: "u8 list \<Rightarrow> Endian \<Rightarrow> u16" where
  "read16 p e =
     (case e of
        Big \<Rightarrow> push_bit 8 (ucast (p ! 0)) OR ucast (p ! 1)
      | Little \<Rightarrow> push_bit 8 (ucast (p ! 1)) OR ucast (p ! 0))"

definition read32 :: "u8 list \<Rightarrow> Endian \<Rightarrow> u32" where
  "read32 p e =
     (case e of
        Big \<Rightarrow>
          push_bit 24 (ucast (p ! 0)) OR push_bit 16 (ucast (p ! 1)) OR
          push_bit 8 (ucast (p ! 2)) OR ucast (p ! 3)
      | Little \<Rightarrow>
          push_bit 24 (ucast (p ! 3)) OR push_bit 16 (ucast (p ! 2)) OR
          push_bit 8 (ucast (p ! 1)) OR ucast (p ! 0))"

definition read64 :: "u8 list \<Rightarrow> Endian \<Rightarrow> u64" where
  "read64 p e =
     (case e of
        Big \<Rightarrow> foldl (\<lambda>v i. push_bit 8 v OR ucast (p ! i)) 0 [0, 1, 2, 3, 4, 5, 6, 7]
      | Little \<Rightarrow> foldl (\<lambda>v i. push_bit 8 v OR ucast (p ! i)) 0 [7, 6, 5, 4, 3, 2, 1, 0])"

definition readDouble :: "u8 list \<Rightarrow> Endian \<Rightarrow> double_bits" where
  "readDouble p e = read64 p e"

section \<open>Receiver: one datagram (the body of UdpDoubleReceiver::run)\<close>

record Packet =
  seq :: u32
  timestampNanos :: u64
  data :: "double_bits list"

definition MAGIC_UDPD :: u32 where "MAGIC_UDPD = 0x55445044"
definition VERSION_1 :: u16 where "VERSION_1 = 1"

text \<open>
  \<open>buf\<close> is the first \<^verbatim>\<open>received\<close> bytes of \<^verbatim>\<open>recvBuffer_\<close>.  Each \<^verbatim>\<open>continue\<close> of the
  loop body is \<open>None\<close>; the packet built at the end is \<open>Some\<close>.  All reads lie below
  \<^verbatim>\<open>received\<close>: the header reads after the length test, the payload reads after the
  truncation test.
\<close>

definition decode_datagram :: "Endian \<Rightarrow> u8 list \<Rightarrow> Packet option" where
  "decode_datagram e buf =
     (if length buf < HEADER_BYTES then None
      else
        let magic = read32 (drop 0 buf) e;
            ver = read16 (drop 4 buf) e;
            count = read16 (drop 6 buf) e;
            sq = read32 (drop 8 buf) e;
            ts = read64 (drop 12 buf) e
        in
          if magic \<noteq> MAGIC_UDPD then None
          else if ver \<noteq> VERSION_1 then None
          else
            let expectedBytes = HEADER_BYTES + unat count * 8 in
              if expectedBytes > length buf then None
              else
                Some \<lparr>seq = sq, timestampNanos = ts,
                      data = map (\<lambda>i. readDouble (drop (HEADER_BYTES + i * 8) buf) e)
                               [0..<unat count]\<rparr>)"

section \<open>Receiver: state, receive loop and getLatest\<close>

text \<open>
  The members that decide what a loop pass and \<^verbatim>\<open>getLatest\<close> do: the configured byte
  order, the latest slot and its flag (\<^verbatim>\<open>endian_\<close>, \<^verbatim>\<open>latest_\<close>, \<^verbatim>\<open>hasData_\<close>), and
  the buffer size fixed by the constructor.  Host, port, socket and thread are the
  platform's side of the receiver.
\<close>

record receiver =
  rx_bufferSize :: nat
  rx_endian :: Endian
  rx_latest :: Packet
  rx_hasData :: bool

definition UdpDoubleReceiver :: "nat \<Rightarrow> Endian \<Rightarrow> receiver" where
  "UdpDoubleReceiver bufferSize e =
     \<lparr>rx_bufferSize = (if bufferSize < 256 then 256 else bufferSize),
      rx_endian = e,
      rx_latest = \<lparr>seq = 0, timestampNanos = 0, data = []\<rparr>,
      rx_hasData = False\<rparr>"

text \<open>
  What one pass of the \<^verbatim>\<open>while (running_)\<close> loop meets: \<^verbatim>\<open>recvfrom\<close> returned
  \<^verbatim>\<open>received\<close> bytes, or failed with \<^verbatim>\<open>WSAEWOULDBLOCK\<close>, or failed with another error
  code, or \<^verbatim>\<open>running_\<close> was found false (at the loop head or right after
  \<^verbatim>\<open>recvfrom\<close>).
\<close>

datatype recv_result = Received "u8 list" | WouldBlock | SocketError int | Stopped

definition store_latest :: "receiver \<Rightarrow> Packet \<Rightarrow> receiver" where
  "store_latest r pkt = r\<lparr>rx_latest := pkt, rx_hasData := True\<rparr>"

definition run_iteration :: "receiver \<Rightarrow> recv_result \<Rightarrow> receiver" where
  "run_iteration r ev =
     (case ev of
        Received buf \<Rightarrow>
          (case decode_datagram (rx_endian r) buf of
             None \<Rightarrow> r
           | Some pkt \<Rightarrow> store_latest r pkt)
      | WouldBlock \<Rightarrow> r
      | SocketError err \<Rightarrow> r
      | Stopped \<Rightarrow> r)"

fun run :: "receiver \<Rightarrow> recv_result list \<Rightarrow> receiver" where
  "run r [] = r"
| "run r (Stopped # evs) = r"
| "run r (ev # evs) = run (run_iteration r ev) evs"

text \<open>
  \<^verbatim>\<open>getLatest(Packet& out)\<close>: the returned flag, the value of \<^verbatim>\<open>out\<close> afterwards, and
  the receiver afterwards (the function assigns to no member).
\<close>

definition getLatest :: "receiver \<Rightarrow> Packet \<Rightarrow> bool \<times> Packet \<times> receiver" where
  "getLatest r out = (if \<not> rx_hasData r then (False, out, r) else (True, rx_latest r, r))"

section \<open>Sender: state, constructor and send operations\<close>

datatype error = InvalidArgument string | RuntimeError string

text \<open>\<^verbatim>\<open>std::max\<close> and \<^verbatim>\<open>std::min\<close> on \<^verbatim>\<open>int\<close>, and \<^verbatim>\<open>/\<close> on \<^verbatim>\<open>int\<close> (truncating).\<close>

definition std_max :: "i32 \<Rightarrow> i32 \<Rightarrow> i32" where
  "std_max a b = (if a <s b then b else a)"

definition std_min :: "i32 \<Rightarrow> i32 \<Rightarrow> i32" where
  "std_min a b = (if b <s a then b else a)"

definition int_div :: "i32 \<Rightarrow> i32 \<Rightarrow> i32" where
  "int_div a b = word_of_int (sint a sdiv sint b)"

record sender =
  tx_connect :: bool
  tx_open :: bool
  tx_maxDoubles :: i32
  tx_seq :: i32
  tx_buffer :: "u8 list"
  tx_tsOffset :: i64

text \<open>
  \<^verbatim>\<open>initTimestampOffset_\<close> and \<^verbatim>\<open>monotonicNowNanosNonNegative_\<close>, with the reading of
  \<^verbatim>\<open>steady_clock\<close> as an argument.  Signed overflow is taken to wrap, as it does on the
  two's-complement targets of the code.
\<close>

definition initTimestampOffset :: "i64 \<Rightarrow> i64" where
  "initTimestampOffset now = (if now <s 0 then - now else 0)"

definition monotonicNowNanosNonNegative :: "sender \<Rightarrow> i64 \<Rightarrow> i64" where
  "monotonicNowNanosNonNegative s now = now + tx_tsOffset s"

text \<open>
  What \<^verbatim>\<open>createAndConfigureSocket_\<close> ends with: \<^verbatim>\<open>getaddrinfo\<close> failed, no resolved
  address gave a usable socket, or \<^verbatim>\<open>sock_\<close> is set.
\<close>

datatype socket_setup = GetaddrinfoFailed | NoUsableAddress | SocketReady

definition capacity :: "i32 \<Rightarrow> i32 \<Rightarrow> i32" where
  "capacity maxDoubles maxPayloadBytes =
     (let payloadLimit = (if 0 <s maxPayloadBytes then maxPayloadBytes
                          else DEFAULT_MAX_UDP_PAYLOAD);
          maxByPayload = std_max 0 (int_div (payloadLimit - of_nat HEADER_BYTES) 8)
      in std_max 0 (std_min maxDoubles maxByPayload))"

definition UdpDoubleSender ::
  "i32 \<Rightarrow> bool \<Rightarrow> i32 \<Rightarrow> i64 \<Rightarrow> socket_setup \<Rightarrow> error + sender" where
  "UdpDoubleSender maxDoubles connectUdp maxPayloadBytes now setup =
     (let md = capacity maxDoubles maxPayloadBytes;
          s = \<lparr>tx_connect = connectUdp, tx_open = True, tx_maxDoubles = md, tx_seq = 0,
               tx_buffer = replicate (HEADER_BYTES + unat md * 8) 0,
               tx_tsOffset = initTimestampOffset now\<rparr>
      in case setup of
           GetaddrinfoFailed \<Rightarrow> Inl (RuntimeError ''getaddrinfo failed'')
         | NoUsableAddress \<Rightarrow>
             Inl (RuntimeError ''Failed to create usable UDP socket for any resolved address'')
         | SocketReady \<Rightarrow> Inr s)"

definition getMaxDoubles :: "sender \<Rightarrow> i32" where
  "getMaxDoubles s = tx_maxDoubles s"

definition close :: "sender \<Rightarrow> sender" where
  "close s = s\<lparr>tx_open := False\<rparr>"

text \<open>
  One call meets a host byte order, a clock reading (used only for the default timestamp)
  and the value \<^verbatim>\<open>send\<close>/\<^verbatim>\<open>sendto\<close> returns.
\<close>

record send_env =
  env_host :: host
  env_now :: i64
  env_sent :: int

text \<open>
  \<^verbatim>\<open>sendWithSeq\<close>: the result (an exception or the returned \<^verbatim>\<open>size_t\<close>), the sender
  afterwards, and the datagram handed to \<^verbatim>\<open>send\<close>/\<^verbatim>\<open>sendto\<close> if the call got that
  far.  \<open>None\<close> for \<open>dat\<close> is the null pointer; \<open>Some vals\<close> is an array the caller
  owns, of which the payload loop reads the elements below \<^verbatim>\<open>n\<close>.  The frame overwrites
  the first \<^verbatim>\<open>bytes\<close> bytes of \<^verbatim>\<open>buffer_\<close>, and those bytes are what is sent.  The
  platform's error text that the source appends to the last message is left out.
\<close>

definition sendWithSeq ::
  "sender \<Rightarrow> send_env \<Rightarrow> double_bits list option \<Rightarrow> i32 \<Rightarrow> i32 \<Rightarrow> i64 \<Rightarrow>
     (error + nat) \<times> sender \<times> u8 list option" where
  "sendWithSeq s env dat count sq tsArg =
     (case dat of
        None \<Rightarrow> (Inl (InvalidArgument ''data is null''), s, None)
      | Some vals \<Rightarrow>
          if count \<le>s 0 then (Inr 0, s, None)
          else if tx_maxDoubles s <s count then
            (Inl (InvalidArgument ''count > maxDoubles/payload cap''), s, None)
          else if \<not> tx_open s then (Inl (RuntimeError ''socket not open''), s, None)
          else
            let ts = (if tsArg = INT64_MIN
                      then monotonicNowNanosNonNegative s (env_now env) else tsArg);
                n = (ucast count :: u16);
                bytes = HEADER_BYTES + unat n * 8;
                buf = encode_frame (env_host env) count sq ts vals @ drop bytes (tx_buffer s);
                s' = s\<lparr>tx_buffer := buf\<rparr>;
                sent = env_sent env
            in if sent < 0 then (Inl (RuntimeError ''send/sendto failed''), s', Some (take bytes buf))
               else (Inr (nat sent), s', Some (take bytes buf)))"

text \<open>\<^verbatim>\<open>sendAutoSeq\<close>: \<^verbatim>\<open>seq_++\<close> is evaluated before the call it is an argument of.\<close>

definition sendAutoSeq ::
  "sender \<Rightarrow> send_env \<Rightarrow> double_bits list option \<Rightarrow> i32 \<Rightarrow>
     (error + nat) \<times> sender \<times> u8 list option" where
  "sendAutoSeq s env dat count =
     sendWithSeq (s\<lparr>tx_seq := tx_seq s + 1\<rparr>) env dat count (tx_seq s) INT64_MIN"

text \<open>
  Calls of \<^verbatim>\<open>sendAutoSeq\<close> in succession on one sender (a caller that catches an
  exception and goes on): the datagram each call handed to the socket, and the sender
  after the last call.
\<close>

fun sendAutoSeq_calls ::
  "sender \<Rightarrow> (send_env \<times> double_bits list option \<times> i32) list \<Rightarrow>
     u8 list option list \<times> sender" where
  "sendAutoSeq_calls s [] = ([], s)"
| "sendAutoSeq_calls s ((env, dat, count) # cs) =
     (case sendAutoSeq s env dat count of
        (res, s', out) \<Rightarrow>
          (case sendAutoSeq_calls s' cs of (outs, s'') \<Rightarrow> (out # outs, s'')))"

section \<open>Wire fields\<close>

text \<open>The big-endian byte strings of a value, most significant byte first.\<close>

definition be16 :: "u16 \<Rightarrow> u8 list" where
  "be16 v = [ucast (drop_bit 8 v), ucast v]"

definition be32 :: "u32 \<Rightarrow> u8 list" where
  "be32 v = [ucast (drop_bit 24 v), ucast (drop_bit 16 v), ucast (drop_bit 8 v), ucast v]"

definition be64 :: "u64 \<Rightarrow> u8 list" where
  "be64 v =
     [ucast (drop_bit 56 v), ucast (drop_bit 48 v), ucast (drop_bit 40 v),
      ucast (drop_bit 32 v), ucast (drop_bit 24 v), ucast (drop_bit 16 v),
      ucast (drop_bit 8 v), ucast v]"

text \<open>The sequence and timestamp fields of a datagram, as the wire format lays them out.\<close>

definition frame_seq :: "u8 list \<Rightarrow> u32" where
  "frame_seq d = read32 (drop 8 d) Big"

definition frame_timestamp :: "u8 list \<Rightarrow> u64" where
  "frame_timestamp d = read64 (drop 12 d) Big"

text \<open>The arguments that pass every check of \<^verbatim>\<open>sendWithSeq\<close> before the encoding step.\<close>

definition accepted :: "sender \<Rightarrow> double_bits list option \<Rightarrow> i32 \<Rightarrow> bool" where
  "accepted s dat count \<longleftrightarrow> dat \<noteq> None \<and> 0 <s count \<and> count \<le>s tx_maxDoubles s \<and> tx_open s"

section \<open>Byte-order facts\<close>

lemma isLittleEndian_iff: "isLittleEndian h \<longleftrightarrow> h = LittleEndianHost"
  by (cases h) (simp_all add: isLittleEndian_def object16_def)


lemma mask16: "(0x00FF :: u16) = mask 8" "(0xFF00 :: u16) = push_bit 8 (mask 8)"
  by (simp_all add: mask_eq_exp_minus_1 push_bit_eq_mult)

lemma mask32:
  "(0x000000FF :: u32) = mask 8" "(0x0000FF00 :: u32) = push_bit 8 (mask 8)"
  "(0x00FF0000 :: u32) = push_bit 16 (mask 8)" "(0xFF000000 :: u32) = push_bit 24 (mask 8)"
  by (simp_all add: mask_eq_exp_minus_1 push_bit_eq_mult)

lemma mask64:
  "(0x00000000000000FF :: u64) = mask 8"
  "(0x000000000000FF00 :: u64) = push_bit 8 (mask 8)"
  "(0x0000000000FF0000 :: u64) = push_bit 16 (mask 8)"
  "(0x00000000FF000000 :: u64) = push_bit 24 (mask 8)"
  "(0x000000FF00000000 :: u64) = push_bit 32 (mask 8)"
  "(0x0000FF0000000000 :: u64) = push_bit 40 (mask 8)"
  "(0x00FF000000000000 :: u64) = push_bit 48 (mask 8)"
  "(0xFF00000000000000 :: u64) = push_bit 56 (mask 8)"
  by (simp_all add: mask_eq_exp_minus_1 push_bit_eq_mult)

text \<open>Whatever the host's byte order, the writers store big-endian bytes.\<close>

lemma writeBE16_bytes: "writeBE16 h v = be16 v"
  unfolding writeBE16_def object16_def htons_def mask16 be16_def
  by (cases h; simp; intro conjI; rule bit_word_eqI; auto simp add: bit_simps)

lemma writeBE32u_bytes: "writeBE32u h v = be32 v"
  unfolding writeBE32u_def object32_def htonl_def mask32 be32_def
  by (cases h; simp; intro conjI; rule bit_word_eqI; auto simp add: bit_simps)

lemma object64_hostToBE64: "object64 h (hostToBE64 h v) = be64 v"
  unfolding object64_def hostToBE64_def isLittleEndian_iff bswap64_def mask64 be64_def
  by (cases h; simp; intro conjI; rule bit_word_eqI; auto simp add: bit_simps)

lemma writeBE64_fromBits_bytes: "writeBE64_fromBits h v = be64 v"
  by (simp add: writeBE64_fromBits_def object64_hostToBE64)

lemma writeDoubleBE_bytes: "writeDoubleBE h d = be64 d"
  by (simp add: writeDoubleBE_def object64_hostToBE64)

text \<open>Reading big-endian gives the value back.\<close>

lemma join8:
  "push_bit 8 (drop_bit (8 + m) v) OR ucast (ucast (drop_bit m v) :: u8) =
     drop_bit m (v :: 'a::len word)"
  by (rule bit_word_eqI) (auto simp add: bit_simps)

lemma top8_64: "ucast (ucast (drop_bit 56 v) :: u8) = drop_bit 56 (v :: u64)"
  by (rule bit_word_eqI) (auto simp add: bit_simps dest: bit_imp_le_length)

lemmas join8_64 =
  join8 [of 48 "v :: u64", simplified] join8 [of 40 "v :: u64", simplified]
  join8 [of 32 "v :: u64", simplified] join8 [of 24 "v :: u64", simplified]
  join8 [of 16 "v :: u64", simplified] join8 [of 8 "v :: u64", simplified]
  join8 [of 0 "v :: u64", simplified] for v

lemma read64_Big: "read64 (be64 v @ rest) Big = v"
  unfolding read64_def be64_def
  by (simp add: top8_64 join8_64)

lemma read16_Big: "read16 (be16 v @ rest) Big = v"
  unfolding read16_def be16_def
  by (simp, rule bit_word_eqI, auto simp add: bit_simps)

lemma read32_Big: "read32 (be32 v @ rest) Big = v"
  unfolding read32_def be32_def
  apply (simp, rule bit_word_eqI)
  apply (auto simp add: bit_simps)
  subgoal for n by (cases "16 \<le> n") auto
  subgoal for n by (cases "16 \<le> n") auto
  done


section \<open>Layout of an encoded frame\<close>

lemma length_be [simp]: "length (be16 a) = 2" "length (be32 b) = 4" "length (be64 c) = 8"
  by (simp_all add: be16_def be32_def be64_def)

lemma encode_payload_bytes:
  "encode_payload h n vals = concat (map (\<lambda>i. be64 (vals ! i)) [0..<unat n])"
  by (simp add: encode_payload_def writeDoubleBE_bytes)

lemma encode_frame_bytes:
  "encode_frame h count sq ts vals =
     be32 MAGIC @ be16 VERSION @ be16 (ucast count) @ be32 sq @ be64 ts @
     concat (map (\<lambda>i. be64 (vals ! i)) [0..<unat (ucast count :: u16)])"
  by (simp add: encode_frame_def Let_def writeBE32u_bytes writeBE16_bytes
      writeBE32_fromBits_def writeBE64_fromBits_bytes encode_payload_bytes)

lemma length_concat_chunks:
  "(\<And>x. length (f x) = k) \<Longrightarrow> length (concat (map f xs)) = k * length xs"
  by (induction xs) simp_all

lemma drop_concat_chunks:
  "(\<And>x. length (f x) = k) \<Longrightarrow> i < length xs \<Longrightarrow>
     drop (i * k) (concat (map f xs)) = f (xs ! i) @ concat (map f (drop (Suc i) xs))"
proof (induction xs arbitrary: i)
  case Nil
  then show ?case by simp
next
  case (Cons x xs)
  show ?case
  proof (cases i)
    case 0
    then show ?thesis by simp
  next
    case (Suc j)
    with Cons.prems have "j < length xs" by simp
    from Cons.IH [OF Cons.prems(1) this] Suc Cons.prems(1) show ?thesis by simp
  qed
qed

lemma length_encode_frame:
  "length (encode_frame h count sq ts vals) = 20 + 8 * unat (ucast count :: u16)"
  by (simp add: encode_frame_bytes length_concat_chunks [where k = 8])

lemma header_reads:
  "read32 (encode_frame h count sq ts vals) Big = MAGIC"
  "read16 (drop 4 (encode_frame h count sq ts vals)) Big = VERSION"
  "read16 (drop 6 (encode_frame h count sq ts vals)) Big = ucast count"
  "read32 (drop 8 (encode_frame h count sq ts vals)) Big = sq"
  "read64 (drop 12 (encode_frame h count sq ts vals)) Big = ts"
  unfolding encode_frame_bytes
  by (simp_all add: read32_Big read16_Big read64_Big)

lemma payload_read:
  assumes "i < unat (ucast count :: u16)"
  shows "readDouble (drop (20 + i * 8) (encode_frame h count sq ts vals)) Big = vals ! i"
proof -
  let ?n = "unat (ucast count :: u16)"
  let ?f = "\<lambda>i. be64 (vals ! i)"
  have "drop (i * 8) (concat (map ?f [0..<?n])) =
          ?f ([0..<?n] ! i) @ concat (map ?f (drop (Suc i) [0..<?n]))"
    by (rule drop_concat_chunks) (use assms in simp_all)
  then show ?thesis
    using assms by (simp add: encode_frame_bytes readDouble_def read64_Big)
qed

lemma decode_encode_Big:
  "decode_datagram Big (encode_frame h count sq ts vals) =
     Some \<lparr>seq = sq, timestampNanos = ts,
           data = map (\<lambda>i. vals ! i) [0..<unat (ucast count :: u16)]\<rparr>"
  unfolding decode_datagram_def
  by (simp add: header_reads length_encode_frame HEADER_BYTES_def Let_def
      MAGIC_def MAGIC_UDPD_def VERSION_def VERSION_1_def payload_read)

lemma read32_magic_Little: "read32 (encode_frame h count sq ts vals) Little = 0x44504455"
  unfolding encode_frame_bytes
  by (simp add: read32_def be32_def MAGIC_def)

lemma decode_encode_Little: "decode_datagram Little (encode_frame h count sq ts vals) = None"
  unfolding decode_datagram_def
  by (simp add: read32_magic_Little MAGIC_UDPD_def)

lemma count_field:
  fixes count :: i32
  assumes "sint count = int n" and "n \<le> 65535"
  shows "unat (ucast count :: u16) = n"
proof -
  have "count = word_of_int (sint count)" by simp
  then have c: "count = of_nat n" using assms(1) by simp
  have "unat (ucast (of_nat n :: i32) :: u16) = n"
    using assms(2) by (simp add: unsigned_ucast_eq unsigned_of_nat take_bit_nat_eq_self)
  with c show ?thesis by simp
qed

section \<open>Round trip\<close>

text \<open>
  Claim C1, as amended.  The sender has one byte order: every writer of
  \<^verbatim>\<open>sendWithSeq\<close> stores big-endian bytes, on either kind of host.  For every count from
  0 to 65535 (the count field is 16 bits wide) with that many doubles of arbitrary bit
  pattern, any sequence bits and any timestamp bits, the receiver configured
  \<^verbatim>\<open>Endian::Big\<close> decodes the encoded frame to a packet with the same sequence bits,
  timestamp bits and payload bit patterns; the magic, version and count it reads from the
  header are those written.  The receiver configured \<^verbatim>\<open>Endian::Little\<close> rejects the
  same bytes.
\<close>

theorem roundtrip_big_endian:
  assumes "sint count = int (length vals)" and "length vals \<le> 65535"
  shows "decode_datagram Big (encode_frame h count sq ts vals) =
           Some \<lparr>seq = sq, timestampNanos = ts, data = vals\<rparr> \<and>
         read32 (encode_frame h count sq ts vals) Big = MAGIC \<and>
         read16 (drop 4 (encode_frame h count sq ts vals)) Big = VERSION \<and>
         unat (read16 (drop 6 (encode_frame h count sq ts vals)) Big) = length vals \<and>
         decode_datagram Little (encode_frame h count sq ts vals) = None"
proof -
  have n: "unat (ucast count :: u16) = length vals"
    using assms by (rule count_field)
  show ?thesis
    by (simp add: decode_encode_Big decode_encode_Little header_reads n map_nth)
qed

text \<open>
  The theorem at a quiet NaN with a payload, both infinities and the negative zero, on a
  little-endian host.
\<close>

theorem roundtrip_big_endian_witness:
  "decode_datagram Big
     (encode_frame LittleEndianHost 4 7 42
        [0x7FF8000000000001, 0x7FF0000000000000, 0xFFF0000000000000, 0x8000000000000000]) =
     Some \<lparr>seq = 7, timestampNanos = 42,
           data = [0x7FF8000000000001, 0x7FF0000000000000, 0xFFF0000000000000,
                   0x8000000000000000]\<rparr>"
  using roundtrip_big_endian [of 4
      "[0x7FF8000000000001, 0x7FF0000000000000, 0xFFF0000000000000, 0x8000000000000000]"
      LittleEndianHost 7 42]
  by simp

text \<open>
  The claim as written also covers the little-endian receiver: there the frame with
  sequence 7, timestamp 42 and the single double 1.0 does not come back.
\<close>

theorem roundtrip_little_counterexample:
  "decode_datagram Little (encode_frame LittleEndianHost 1 7 42 [0x3FF0000000000000]) \<noteq>
     Some \<lparr>seq = 7, timestampNanos = 42, data = [0x3FF0000000000000]\<rparr>"
  by (simp add: decode_encode_Little)

section \<open>Magic, version and length gates\<close>

text \<open>
  Claim C3.  For every received buffer of at least 20 bytes whose first four bytes, read
  in the receiver's configured byte order, are not \<^verbatim>\<open>0x55445044\<close>, or whose bytes 4 and 5
  so read are not 1, the decode step rejects the buffer whatever the rest of it holds, and
  the loop pass leaves the receiver (latest slot and flag included) as it was.
\<close>

theorem magic_version_gate:
  assumes "20 \<le> length buf"
    and "read32 buf (rx_endian r) \<noteq> 0x55445044 \<or> read16 (drop 4 buf) (rx_endian r) \<noteq> 1"
  shows "decode_datagram (rx_endian r) buf = None \<and> run_iteration r (Received buf) = r"
  using assms
  by (auto simp add: decode_datagram_def run_iteration_def Let_def MAGIC_UDPD_def VERSION_1_def)

text \<open>A header-sized buffer whose magic differs in its last byte.\<close>

theorem magic_version_gate_witness:
  "run_iteration (UdpDoubleReceiver 2048 Big)
     (Received ([0x55, 0x44, 0x50, 0x45, 0, 1, 0, 0, 0, 0, 0, 0, 0, 0, 0, 0, 0, 0, 0, 0])) =
   UdpDoubleReceiver 2048 Big"
  using magic_version_gate [of
      "[0x55, 0x44, 0x50, 0x45, 0, 1, 0, 0, 0, 0, 0, 0, 0, 0, 0, 0, 0, 0, 0, 0]"
      "UdpDoubleReceiver 2048 Big"]
  by (simp add: UdpDoubleReceiver_def read32_def)

text \<open>
  Claim C4.  A received buffer shorter than 20 bytes is rejected.  A buffer of at least 20
  bytes whose count field reads \<open>N > 0\<close> and which is shorter than \<open>20 + N * 8\<close> bytes is
  rejected (whether or not its magic and version are right).  In both cases the loop pass
  leaves the receiver, and so the latest slot and the has-data flag, unchanged.
\<close>

theorem short_or_truncated_rejected:
  "(length buf < 20 \<longrightarrow>
      decode_datagram (rx_endian r) buf = None \<and> run_iteration r (Received buf) = r) \<and>
   (20 \<le> length buf \<and> 0 < N \<and> unat (read16 (drop 6 buf) (rx_endian r)) = N \<and>
      length buf < 20 + N * 8 \<longrightarrow>
      decode_datagram (rx_endian r) buf = None \<and> run_iteration r (Received buf) = r)"
  by (auto simp add: decode_datagram_def run_iteration_def Let_def HEADER_BYTES_def)

text \<open>
  An 8-byte buffer, and a 23-byte buffer with the right magic and version that declares
  one double.
\<close>

theorem short_or_truncated_rejected_witness:
  "run_iteration (UdpDoubleReceiver 2048 Big) (Received [0x55, 0x44, 0x50, 0x44, 0, 1, 0, 1]) =
     UdpDoubleReceiver 2048 Big \<and>
   run_iteration (UdpDoubleReceiver 2048 Big)
     (Received ([0x55, 0x44, 0x50, 0x44, 0, 1, 0, 1, 0, 0, 0, 0, 0, 0, 0, 0, 0, 0, 0, 0, 9, 9, 9])) =
     UdpDoubleReceiver 2048 Big"
  using short_or_truncated_rejected [of "[0x55, 0x44, 0x50, 0x44, 0, 1, 0, 1]"
      "UdpDoubleReceiver 2048 Big"]
    short_or_truncated_rejected [of
      "[0x55, 0x44, 0x50, 0x44, 0, 1, 0, 1, 0, 0, 0, 0, 0, 0, 0, 0, 0, 0, 0, 0, 9, 9, 9]"
      "UdpDoubleReceiver 2048 Big" 1]
  by (simp add: UdpDoubleReceiver_def read16_def)

section \<open>Surplus bytes\<close>

lemma read16_take:
  "a + 2 \<le> k \<Longrightarrow> k \<le> length buf \<Longrightarrow> read16 (drop a (take k buf)) e = read16 (drop a buf) e"
  by (cases e) (simp_all add: read16_def)

lemma read32_take:
  "a + 4 \<le> k \<Longrightarrow> k \<le> length buf \<Longrightarrow> read32 (drop a (take k buf)) e = read32 (drop a buf) e"
  by (cases e) (simp_all add: read32_def)

lemma read64_take:
  "a + 8 \<le> k \<Longrightarrow> k \<le> length buf \<Longrightarrow> read64 (drop a (take k buf)) e = read64 (drop a buf) e"
  by (cases e) (simp_all add: read64_def)

text \<open>
  Claim C10.  A received datagram with the right magic and version whose count field reads
  \<open>N\<close> and which is strictly longer than \<open>20 + N * 8\<close> bytes is accepted: the packet stored
  holds exactly \<open>N\<close> doubles, the \<open>i\<close>-th read from the eight bytes at \<open>20 + i * 8\<close>; the
  bytes from \<open>20 + N * 8\<close> on have no effect (the datagram cut there decodes to the same
  packet).
\<close>

theorem surplus_bytes_ignored:
  assumes "read32 buf (rx_endian r) = 0x55445044" and "read16 (drop 4 buf) (rx_endian r) = 1"
    and "unat (read16 (drop 6 buf) (rx_endian r)) = N" and "20 + N * 8 < length buf"
  shows "run_iteration r (Received buf) =
           r\<lparr>rx_latest :=
               \<lparr>seq = read32 (drop 8 buf) (rx_endian r),
                timestampNanos = read64 (drop 12 buf) (rx_endian r),
                data = map (\<lambda>i. readDouble (drop (20 + i * 8) buf) (rx_endian r)) [0..<N]\<rparr>,
             rx_hasData := True\<rparr> \<and>
         length (data (rx_latest (run_iteration r (Received buf)))) = N \<and>
         decode_datagram (rx_endian r) (take (20 + N * 8) buf) =
           decode_datagram (rx_endian r) buf"
proof -
  let ?e = "rx_endian r"
  let ?pkt = "\<lparr>seq = read32 (drop 8 buf) ?e, timestampNanos = read64 (drop 12 buf) ?e,
                data = map (\<lambda>i. readDouble (drop (20 + i * 8) buf) ?e) [0..<N]\<rparr>"
  have full: "decode_datagram ?e buf = Some ?pkt"
    using assms
    by (simp add: decode_datagram_def Let_def HEADER_BYTES_def MAGIC_UDPD_def VERSION_1_def)
  let ?k = "20 + N * 8"
  have k: "?k \<le> length buf" using assms(4) by simp
  have hdr: "read32 (take ?k buf) ?e = read32 buf ?e"
    "read16 (drop 4 (take ?k buf)) ?e = read16 (drop 4 buf) ?e"
    "read16 (drop 6 (take ?k buf)) ?e = read16 (drop 6 buf) ?e"
    "read32 (drop 8 (take ?k buf)) ?e = read32 (drop 8 buf) ?e"
    "read64 (drop 12 (take ?k buf)) ?e = read64 (drop 12 buf) ?e"
    using read32_take [of 0 ?k buf ?e] read16_take [of 4 ?k buf ?e] read16_take [of 6 ?k buf ?e]
      read32_take [of 8 ?k buf ?e] read64_take [of 12 ?k buf ?e] k
    by simp_all
  have pay: "readDouble (drop (20 + i * 8) (take ?k buf)) ?e =
             readDouble (drop (20 + i * 8) buf) ?e"
    if "i < N" for i
    unfolding readDouble_def
    by (rule read64_take) (use that k in simp_all)
  have cut: "decode_datagram ?e (take ?k buf) = decode_datagram ?e buf"
    unfolding full using assms k
    by (simp add: decode_datagram_def Let_def hdr pay HEADER_BYTES_def MAGIC_UDPD_def
        VERSION_1_def)
  have "run_iteration r (Received buf) = store_latest r ?pkt"
    by (simp add: run_iteration_def full)
  with cut show ?thesis by (simp add: store_latest_def)
qed

text \<open>A datagram declaring one double, followed by three surplus bytes.\<close>

theorem surplus_bytes_ignored_witness:
  "run_iteration (UdpDoubleReceiver 2048 Big)
     (Received ([0x55, 0x44, 0x50, 0x44, 0, 1, 0, 1, 0, 0, 0, 7, 0, 0, 0, 0, 0, 0, 0, 42,
                 0x3F, 0xF0, 0, 0, 0, 0, 0, 0, 9, 9, 9])) =
   (UdpDoubleReceiver 2048 Big)
     \<lparr>rx_latest := \<lparr>seq = 7, timestampNanos = 42, data = [0x3FF0000000000000]\<rparr>,
      rx_hasData := True\<rparr>"
  using surplus_bytes_ignored [of
      "[0x55, 0x44, 0x50, 0x44, 0, 1, 0, 1, 0, 0, 0, 7, 0, 0, 0, 0, 0, 0, 0, 42,
        0x3F, 0xF0, 0, 0, 0, 0, 0, 0, 9, 9, 9]"
      "UdpDoubleReceiver 2048 Big" 1]
  by (simp add: UdpDoubleReceiver_def read16_def read32_def read64_def readDouble_def)

section \<open>The latest slot\<close>

lemma rx_endian_run_iteration [simp]: "rx_endian (run_iteration r ev) = rx_endian r"
  by (simp add: run_iteration_def store_latest_def split: recv_result.splits option.splits)

lemma rx_endian_run: "rx_endian (run r evs) = rx_endian r"
  by (induction r evs rule: run.induct) simp_all

lemma run_append: "Stopped \<notin> set pre \<Longrightarrow> run r (pre @ evs) = run (run r pre) evs"
proof (induction pre arbitrary: r)
  case Nil
  then show ?case by simp
next
  case (Cons ev pre)
  then show ?case by (cases ev) simp_all
qed

lemma run_rejected:
  "\<forall>ev\<in>set post. \<forall>b. ev = Received b \<longrightarrow> decode_datagram (rx_endian r) b = None \<Longrightarrow>
     run r post = r"
proof (induction post)
  case Nil
  then show ?case by simp
next
  case (Cons ev post)
  then show ?case by (cases ev) (simp_all add: run_iteration_def)
qed

text \<open>The flag is set exactly when some pass of the loop has stored a packet.\<close>

lemma hasData_run:
  "rx_hasData (run r evs) \<longleftrightarrow>
     rx_hasData r \<or>
     (\<exists>b. Received b \<in> set (takeWhile (\<lambda>ev. ev \<noteq> Stopped) evs) \<and>
          decode_datagram (rx_endian r) b \<noteq> None)"
proof (induction evs arbitrary: r)
  case Nil
  then show ?case by simp
next
  case (Cons ev evs)
  note ih = Cons.IH [of "run_iteration r ev"]
  show ?case
  proof (cases ev)
    case (Received b)
    with ih show ?thesis
      by (cases "decode_datagram (rx_endian r) b")
        (auto simp add: run_iteration_def store_latest_def)
  next
    case WouldBlock
    with ih show ?thesis by (auto simp add: run_iteration_def)
  next
    case (SocketError err)
    with ih show ?thesis by (auto simp add: run_iteration_def)
  next
    case Stopped
    then show ?thesis by simp
  qed
qed

text \<open>
  Claim C8.  For every receiver state: while the has-data flag is false, \<^verbatim>\<open>getLatest\<close>
  returns false and leaves \<^verbatim>\<open>out\<close> as the caller passed it; once the flag is true,
  \<^verbatim>\<open>getLatest\<close> returns true and \<^verbatim>\<open>out\<close> is a copy of the stored packet; in both cases
  the receiver's own state is unchanged.  The flag is false exactly as long as no valid
  frame has been stored: after any passes of the receive loop on a newly constructed
  receiver, \<^verbatim>\<open>getLatest\<close> returns true if and only if one of the datagrams received
  before the loop stopped was valid.
\<close>

theorem getLatest_flag:
  "(\<not> rx_hasData r \<longrightarrow> getLatest r out = (False, out, r)) \<and>
   (rx_hasData r \<longrightarrow> getLatest r out = (True, rx_latest r, r)) \<and>
   getLatest (store_latest r pkt) out = (True, pkt, store_latest r pkt) \<and>
   (fst (getLatest (run (UdpDoubleReceiver bufferSize e) evs) out) \<longleftrightarrow>
      (\<exists>b. Received b \<in> set (takeWhile (\<lambda>ev. ev \<noteq> Stopped) evs) \<and>
           decode_datagram e b \<noteq> None))"
proof -
  have "rx_hasData (run (UdpDoubleReceiver bufferSize e) evs) \<longleftrightarrow>
      (\<exists>b. Received b \<in> set (takeWhile (\<lambda>ev. ev \<noteq> Stopped) evs) \<and>
           decode_datagram e b \<noteq> None)"
    by (simp add: hasData_run) (simp add: UdpDoubleReceiver_def)
  then show ?thesis
    by (simp add: getLatest_def store_latest_def)
qed

theorem getLatest_flag_witness:
  "getLatest (UdpDoubleReceiver 2048 Big) \<lparr>seq = 4, timestampNanos = 5, data = [6]\<rparr> =
     (False, \<lparr>seq = 4, timestampNanos = 5, data = [6]\<rparr>, UdpDoubleReceiver 2048 Big) \<and>
   getLatest
       (store_latest (UdpDoubleReceiver 2048 Big) \<lparr>seq = 1, timestampNanos = 2, data = [3]\<rparr>)
       \<lparr>seq = 4, timestampNanos = 5, data = [6]\<rparr> =
     (True, \<lparr>seq = 1, timestampNanos = 2, data = [3]\<rparr>,
      store_latest (UdpDoubleReceiver 2048 Big) \<lparr>seq = 1, timestampNanos = 2, data = [3]\<rparr>)"
  using getLatest_flag [of "UdpDoubleReceiver 2048 Big"
      "\<lparr>seq = 4, timestampNanos = 5, data = [6]\<rparr>"]
    getLatest_flag [of
      "store_latest (UdpDoubleReceiver 2048 Big) \<lparr>seq = 1, timestampNanos = 2, data = [3]\<rparr>"
      "\<lparr>seq = 4, timestampNanos = 5, data = [6]\<rparr>"]
  by (simp add: UdpDoubleReceiver_def store_latest_def)

text \<open>
  Claim C9.  Whatever the receive loop met before (datagrams of any sequence numbers,
  would-block and error returns), once it has processed a valid datagram and after it only
  passes that store nothing, \<^verbatim>\<open>getLatest\<close> reports the packet of that datagram: the
  last valid datagram delivered wins, not the one with the highest sequence number.
\<close>

theorem latest_wins:
  assumes "Stopped \<notin> set pre"
    and "decode_datagram (rx_endian r) b = Some pkt"
    and "\<forall>ev\<in>set post. \<forall>b'. ev = Received b' \<longrightarrow> decode_datagram (rx_endian r) b' = None"
  shows "fst (getLatest (run r (pre @ Received b # post)) out) = True \<and>
         fst (snd (getLatest (run r (pre @ Received b # post)) out)) = pkt"
proof -
  let ?r1 = "run r pre"
  have e: "rx_endian ?r1 = rx_endian r"
    by (rule rx_endian_run)
  let ?r2 = "store_latest ?r1 pkt"
  have "run r (pre @ Received b # post) = run (run_iteration ?r1 (Received b)) post"
    using assms(1) by (simp add: run_append)
  also have "run_iteration ?r1 (Received b) = ?r2"
    using assms(2) e by (simp add: run_iteration_def)
  also have "run ?r2 post = ?r2"
    by (rule run_rejected) (use assms(3) e in \<open>simp add: store_latest_def\<close>)
  finally show ?thesis by (simp add: getLatest_def store_latest_def)
qed

text \<open>Datagrams with sequences 5, 3 and 9, delivered in that order: the latest is 9.\<close>

theorem latest_wins_witness:
  "fst (snd (getLatest
     (run (UdpDoubleReceiver 2048 Big)
        [Received (encode_frame LittleEndianHost 1 5 100 [0x3FF0000000000000]),
         Received (encode_frame LittleEndianHost 1 3 200 [0x4000000000000000]),
         Received (encode_frame LittleEndianHost 1 9 300 [0x4008000000000000])])
     \<lparr>seq = 0, timestampNanos = 0, data = []\<rparr>)) =
   \<lparr>seq = 9, timestampNanos = 300, data = [0x4008000000000000]\<rparr>"
  using latest_wins [of
      "[Received (encode_frame LittleEndianHost 1 5 100 [0x3FF0000000000000]),
        Received (encode_frame LittleEndianHost 1 3 200 [0x4000000000000000])]"
      "UdpDoubleReceiver 2048 Big"
      "encode_frame LittleEndianHost 1 9 300 [0x4008000000000000]"
      "\<lparr>seq = 9, timestampNanos = 300, data = [0x4008000000000000]\<rparr>"
      "[]" "\<lparr>seq = 0, timestampNanos = 0, data = []\<rparr>"]
  by (simp add: UdpDoubleReceiver_def decode_encode_Big)

section \<open>What a send call does\<close>

lemma sendWithSeq_accepted:
  assumes "accepted s dat count"
  shows "sendWithSeq s env dat count sq tsArg =
     ((if env_sent env < 0 then Inl (RuntimeError ''send/sendto failed'')
       else Inr (nat (env_sent env))),
      s\<lparr>tx_buffer := encode_frame (env_host env) count sq
            (if tsArg = INT64_MIN then monotonicNowNanosNonNegative s (env_now env) else tsArg)
            (the dat) @
          drop (20 + 8 * unat (ucast count :: u16)) (tx_buffer s)\<rparr>,
      Some (encode_frame (env_host env) count sq
            (if tsArg = INT64_MIN then monotonicNowNanosNonNegative s (env_now env) else tsArg)
            (the dat)))"
proof -
  from assms obtain vals where d: "dat = Some vals" by (auto simp add: accepted_def)
  from assms have c: "\<not> count \<le>s 0" "\<not> tx_maxDoubles s <s count" "tx_open s"
    by (auto simp add: accepted_def word_sless_alt word_sle_eq)
  show ?thesis
    by (simp add: sendWithSeq_def d c Let_def HEADER_BYTES_def length_encode_frame mult.commute)
qed

lemma sendWithSeq_not_accepted:
  assumes "\<not> accepted s dat count"
  shows "snd (sendWithSeq s env dat count sq tsArg) = (s, None)"
  using assms
  by (auto simp add: sendWithSeq_def accepted_def word_sless_alt word_sle_eq split: option.splits)

lemma sendAutoSeq_step:
  assumes "sendAutoSeq s env dat count = (res, s', out)"
  shows "tx_seq s' = tx_seq s + 1 \<and> tx_maxDoubles s' = tx_maxDoubles s \<and>
         tx_open s' = tx_open s \<and> tx_tsOffset s' = tx_tsOffset s \<and>
         (case out of None \<Rightarrow> \<not> accepted s dat count
          | Some d \<Rightarrow> accepted s dat count \<and> frame_seq d = tx_seq s)"
proof (cases "accepted s dat count")
  case True
  then have "accepted (s\<lparr>tx_seq := tx_seq s + 1\<rparr>) dat count"
    by (simp add: accepted_def)
  from sendWithSeq_accepted [OF this, of env "tx_seq s" INT64_MIN] assms True
  show ?thesis
    by (auto simp add: sendAutoSeq_def frame_seq_def header_reads)
next
  case False
  then have "\<not> accepted (s\<lparr>tx_seq := tx_seq s + 1\<rparr>) dat count"
    by (simp add: accepted_def)
  from sendWithSeq_not_accepted [OF this, of env "tx_seq s" INT64_MIN] assms False
  show ?thesis
    by (auto simp add: sendAutoSeq_def)
qed

section \<open>Empty arrays\<close>

text \<open>
  Claim C2, as amended.  For every call of \<^verbatim>\<open>sendWithSeq\<close> with non-null data and a
  count of zero (or below), the call returns 0 to the caller without raising, hands
  nothing to the socket and leaves the sender unchanged; through \<^verbatim>\<open>sendAutoSeq\<close> the
  same happens, except that the sequence counter has advanced by one.
\<close>

theorem empty_send_returns_zero:
  assumes "count \<le>s 0"
  shows "sendWithSeq s env (Some vals) count sq ts = (Inr 0, s, None) \<and>
         sendAutoSeq s env (Some vals) count = (Inr 0, s\<lparr>tx_seq := tx_seq s + 1\<rparr>, None)"
  using assms by (simp add: sendWithSeq_def sendAutoSeq_def)

theorem empty_send_returns_zero_witness:
  "sendAutoSeq
     \<lparr>tx_connect = False, tx_open = True, tx_maxDoubles = 64, tx_seq = 41,
      tx_buffer = replicate 532 0, tx_tsOffset = 0\<rparr>
     \<lparr>env_host = BigEndianHost, env_now = 1000, env_sent = 20\<rparr>
     (Some []) 0 =
   (Inr 0,
    \<lparr>tx_connect = False, tx_open = True, tx_maxDoubles = 64, tx_seq = 42,
      tx_buffer = replicate 532 0, tx_tsOffset = 0\<rparr>, None)"
  using empty_send_returns_zero [of 0
      "\<lparr>tx_connect = False, tx_open = True, tx_maxDoubles = 64, tx_seq = 41,
        tx_buffer = replicate 532 0, tx_tsOffset = 0\<rparr>"
      "\<lparr>env_host = BigEndianHost, env_now = 1000, env_sent = 20\<rparr>" "[]"]
  by simp

text \<open>
  The claim as written has the call fail with an argument error.  On an open sender of
  capacity 172, the call with an empty array returns 0 and sends nothing.
\<close>

theorem empty_send_counterexample:
  "sendWithSeq
     \<lparr>tx_connect = True, tx_open = True, tx_maxDoubles = 172, tx_seq = 0,
      tx_buffer = replicate 1396 0, tx_tsOffset = 0\<rparr>
     \<lparr>env_host = LittleEndianHost, env_now = 1000, env_sent = 20\<rparr>
     (Some []) 0 1 INT64_MIN =
   (Inr 0,
    \<lparr>tx_connect = True, tx_open = True, tx_maxDoubles = 172, tx_seq = 0,
      tx_buffer = replicate 1396 0, tx_tsOffset = 0\<rparr>, None)"
  by (simp add: sendWithSeq_def)

section \<open>Capacity\<close>

lemma sint_std_max: "sint (std_max a b) = max (sint a) (sint b)"
  by (simp add: std_max_def word_sless_alt max_def)

lemma sint_std_min: "sint (std_min a b) = min (sint a) (sint b)"
  by (simp add: std_min_def word_sless_alt min_def)

text \<open>With a positive payload limit neither the subtraction nor the division overflows.\<close>

lemma sint_payload_room:
  fixes pl :: i32
  assumes "0 < sint pl"
  shows "sint (int_div (pl - 20) 8) = (sint pl - 20) sdiv 8"
proof -
  have b: "sint pl < 2 ^ 31" using sint_lt [of pl] by simp
  have "sint (pl - 20) = signed_take_bit 31 (sint pl - 20)"
    by (simp add: sint_word_diff)
  also have "\<dots> = sint pl - 20"
    by (rule signed_take_bit_int_eq_self) (use assms b in simp_all)
  finally have d: "sint (pl - 20) = sint pl - 20" .
  have r: "- 2 \<le> (sint pl - 20) sdiv 8" "(sint pl - 20) sdiv 8 < 2 ^ 31"
    using assms b by (auto simp add: signed_divide_int_def sgn_if)
  have "sint (int_div (pl - 20) 8) = signed_take_bit 31 ((sint pl - 20) sdiv 8)"
    by (simp add: int_div_def d sint_sbintrunc')
  also have "\<dots> = (sint pl - 20) sdiv 8"
    by (rule signed_take_bit_int_eq_self) (use r in simp_all)
  finally show ?thesis .
qed

lemma sint_capacity:
  "sint (capacity md mp) =
     max 0 (min (sint md)
       ((sint (if 0 <s mp then mp else DEFAULT_MAX_UDP_PAYLOAD) - 20) div 8))"
proof -
  let ?pl = "if 0 <s mp then mp else DEFAULT_MAX_UDP_PAYLOAD"
  have pos: "0 < sint ?pl"
    by (simp add: word_sless_alt DEFAULT_MAX_UDP_PAYLOAD_def)
  have room: "sint (int_div (?pl - 20) 8) = (sint ?pl - 20) sdiv 8"
    using pos by (rule sint_payload_room)
  have "max 0 (min (sint md) (max 0 ((sint ?pl - 20) sdiv 8))) =
        max 0 (min (sint md) ((sint ?pl - 20) div 8))"
    by (cases "0 \<le> sint ?pl - 20") (auto simp add: signed_divide_int_def sgn_if max_def min_def)
  then show ?thesis
    unfolding capacity_def Let_def HEADER_BYTES_def sint_std_max sint_std_min
    by (simp add: room)
qed

lemma capacity_1000_1400: "capacity 1000 1400 = 172"
proof -
  have "sint (capacity 1000 1400) = sint (172 :: i32)"
    by (simp add: sint_capacity word_sless_alt)
  then show ?thesis by (rule signed_word_eqI)
qed

lemma construct_default:
  "UdpDoubleSender 1000 True 1400 now SocketReady =
     Inr \<lparr>tx_connect = True, tx_open = True, tx_maxDoubles = 172, tx_seq = 0,
          tx_buffer = replicate 1396 0, tx_tsOffset = initTimestampOffset now\<rparr>"
  by (simp add: UdpDoubleSender_def capacity_1000_1400 Let_def HEADER_BYTES_def)

text \<open>
  Claim C5.  A sender whose construction succeeds has
  \<^verbatim>\<open>getMaxDoubles() = max(0, min(maxDoubles, floor((payloadLimit - 20) / 8)))\<close>, where
  \<^verbatim>\<open>payloadLimit\<close> is \<^verbatim>\<open>maxPayloadBytes\<close> if that is positive and 1400 otherwise; and
  in any later state of that sender (the capacity is never assigned again) every
  \<^verbatim>\<open>sendWithSeq\<close> and \<^verbatim>\<open>sendAutoSeq\<close> with a count above the capacity raises
  \<^verbatim>\<open>std::invalid_argument\<close> and sends nothing.  With \<^verbatim>\<open>maxDoubles = 1000\<close> and a budget
  of 1400 bytes the capacity is 172 and a send of 173 doubles raises: that instance is the
  witness below.
\<close>

theorem capacity_clamp:
  assumes "UdpDoubleSender maxDoubles connectUdp maxPayloadBytes now SocketReady = Inr s"
    and "tx_maxDoubles s' = tx_maxDoubles s"
  shows "sint (getMaxDoubles s) =
           max 0 (min (sint maxDoubles)
             ((sint (if 0 <s maxPayloadBytes then maxPayloadBytes
                     else DEFAULT_MAX_UDP_PAYLOAD) - 20) div 8)) \<and>
         (getMaxDoubles s <s count \<longrightarrow>
            (\<exists>msg. sendWithSeq s' env dat count sq ts = (Inl (InvalidArgument msg), s', None)) \<and>
            (\<exists>msg. sendAutoSeq s' env dat count =
               (Inl (InvalidArgument msg), s'\<lparr>tx_seq := tx_seq s' + 1\<rparr>, None)))"
proof -
  have md: "tx_maxDoubles s = capacity maxDoubles maxPayloadBytes"
    using assms(1) by (auto simp add: UdpDoubleSender_def Let_def)
  have nonneg: "0 \<le> sint (tx_maxDoubles s)"
    unfolding md by (simp add: sint_capacity)
  have raise: "\<exists>msg. sendWithSeq t env dat count sq' ts' = (Inl (InvalidArgument msg), t, None)"
    if "tx_maxDoubles s <s count" and "tx_maxDoubles t = tx_maxDoubles s" for t sq' ts'
  proof (cases dat)
    case None
    then show ?thesis by (simp add: sendWithSeq_def)
  next
    case (Some vals)
    from that(1) nonneg have "\<not> count \<le>s 0"
      by (simp add: word_sless_alt word_sle_eq)
    with that Some show ?thesis by (simp add: sendWithSeq_def)
  qed
  have "\<exists>msg. sendAutoSeq s' env dat count =
          (Inl (InvalidArgument msg), s'\<lparr>tx_seq := tx_seq s' + 1\<rparr>, None)"
    if "tx_maxDoubles s <s count"
    unfolding sendAutoSeq_def
    by (rule raise) (use that assms(2) in simp_all)
  with raise [of s' sq ts] assms(2) show ?thesis
    by (simp add: getMaxDoubles_def md sint_capacity)
qed

theorem capacity_clamp_witness:
  "UdpDoubleSender 1000 True 1400 0 SocketReady =
     Inr \<lparr>tx_connect = True, tx_open = True, tx_maxDoubles = 172, tx_seq = 0,
          tx_buffer = replicate 1396 0, tx_tsOffset = 0\<rparr> \<and>
   sint (getMaxDoubles \<lparr>tx_connect = True, tx_open = True, tx_maxDoubles = 172, tx_seq = 0,
          tx_buffer = replicate 1396 0, tx_tsOffset = 0\<rparr>) = 172 \<and>
   (\<exists>msg. sendWithSeq \<lparr>tx_connect = True, tx_open = True, tx_maxDoubles = 172, tx_seq = 0,
          tx_buffer = replicate 1396 0, tx_tsOffset = 0\<rparr>
        \<lparr>env_host = LittleEndianHost, env_now = 0, env_sent = 1404\<rparr>
        (Some (replicate 173 0)) 173 1 INT64_MIN =
      (Inl (InvalidArgument msg),
       \<lparr>tx_connect = True, tx_open = True, tx_maxDoubles = 172, tx_seq = 0,
          tx_buffer = replicate 1396 0, tx_tsOffset = 0\<rparr>, None))"
proof -
  let ?s = "\<lparr>tx_connect = True, tx_open = True, tx_maxDoubles = 172, tx_seq = 0,
          tx_buffer = replicate 1396 0, tx_tsOffset = 0\<rparr>"
  have c: "UdpDoubleSender 1000 True 1400 0 SocketReady = Inr ?s"
    by (simp add: construct_default initTimestampOffset_def word_sless_alt)
  show ?thesis
    using c capacity_clamp [OF c, of ?s 173
        "\<lparr>env_host = LittleEndianHost, env_now = 0, env_sent = 1404\<rparr>"
        "Some (replicate 173 0)" 1 INT64_MIN]
    by (simp add: getMaxDoubles_def word_sless_alt)
qed

section \<open>Automatic sequence numbers\<close>

lemma sint_add_of_nat:
  fixes a :: i32
  shows "sint (a + of_nat i) = signed_take_bit 31 (sint a + int i)"
proof -
  have a: "signed_take_bit 31 (sint a) = sint a"
    by (rule signed_take_bit_int_eq_self) (use sint_ge [of a] sint_lt [of a] in simp_all)
  have "sint (a + of_nat i) = signed_take_bit 31 (sint a + sint (of_nat i :: i32))"
    by (simp add: sint_word_add)
  also have "\<dots> = signed_take_bit 31 (signed_take_bit 31 (sint a) + signed_take_bit 31 (int i))"
    by (simp only: a signed_of_nat) simp
  also have "\<dots> = signed_take_bit 31 (sint a + int i)"
    by (rule signed_take_bit_add)
  finally show ?thesis .
qed

lemma sendAutoSeq_calls_seq:
  assumes "sendAutoSeq_calls s cs = (outs, s')"
  shows "length outs = length cs \<and>
         tx_seq s' = tx_seq s + of_nat (length cs) \<and>
         (\<forall>i<length cs.
            case outs ! i of
              None \<Rightarrow> \<not> accepted s (fst (snd (cs ! i))) (snd (snd (cs ! i)))
            | Some d \<Rightarrow> accepted s (fst (snd (cs ! i))) (snd (snd (cs ! i))) \<and>
                frame_seq d = tx_seq s + of_nat i)"
  using assms
proof (induction cs arbitrary: s outs)
  case Nil
  then show ?case by simp
next
  case (Cons c cs)
  obtain env dat count where c: "c = (env, dat, count)" by (cases c)
  obtain res s1 out where st: "sendAutoSeq s env dat count = (res, s1, out)"
    by (cases "sendAutoSeq s env dat count")
  obtain outs1 where rest: "sendAutoSeq_calls s1 cs = (outs1, s')" and o: "outs = out # outs1"
    using Cons.prems c st by (cases "sendAutoSeq_calls s1 cs") simp
  note step = sendAutoSeq_step [OF st]
  note ih = Cons.IH [OF rest]
  from step have s1: "tx_seq s1 = tx_seq s + 1" by simp
  have acc: "accepted s1 d' c' = accepted s d' c'" for d' c'
    using step by (simp add: accepted_def)
  from ih have len1: "length outs1 = length cs" by simp
  from ih have sq1: "tx_seq s' = tx_seq s1 + of_nat (length cs)" by simp
  have len: "length outs = length (c # cs)" using o len1 by simp
  have sq: "tx_seq s' = tx_seq s + of_nat (length (c # cs))"
    unfolding sq1 s1 by (simp add: add.assoc)
  have each: "case outs ! i of
              None \<Rightarrow> \<not> accepted s (fst (snd ((c # cs) ! i))) (snd (snd ((c # cs) ! i)))
            | Some d \<Rightarrow> accepted s (fst (snd ((c # cs) ! i))) (snd (snd ((c # cs) ! i))) \<and>
                frame_seq d = tx_seq s + of_nat i"
    if "i < length (c # cs)" for i
  proof (cases i)
    case 0
    from step have "case out of None \<Rightarrow> \<not> accepted s dat count
          | Some d \<Rightarrow> accepted s dat count \<and> frame_seq d = tx_seq s" by simp
    then show ?thesis unfolding 0 o c by (simp split: option.splits)
  next
    case (Suc j)
    with that have "j < length cs" by simp
    with ih have "case outs1 ! j of
              None \<Rightarrow> \<not> accepted s1 (fst (snd (cs ! j))) (snd (snd (cs ! j)))
            | Some d \<Rightarrow> accepted s1 (fst (snd (cs ! j))) (snd (snd (cs ! j))) \<and>
                frame_seq d = tx_seq s1 + of_nat j" by blast
    then show ?thesis unfolding Suc o acc s1 by (simp add: add.assoc split: option.splits)
  qed
  show ?case
    by (intro conjI allI impI len sq each)
qed

text \<open>
  Claim C6.  For every \<open>k\<close> and every \<open>k\<close> calls of \<^verbatim>\<open>sendAutoSeq\<close> in succession on one
  sender, whatever their arguments: the call number \<open>i\<close> (counted from 0) hands a datagram
  to the socket exactly when its arguments pass the checks, and the sequence field of that
  datagram is the counter's value before the first call plus \<open>i\<close> modulo \<open>2 ^ 32\<close>; read as
  an \<^verbatim>\<open>int32_t\<close> it is that sum wrapped into the signed range (so the values go up by
  one from call to call and wrap from \<^verbatim>\<open>INT32_MAX\<close> to \<^verbatim>\<open>INT32_MIN\<close>).  After the
  calls the counter has advanced by \<open>k\<close>.
\<close>

theorem auto_sequence:
  assumes "sendAutoSeq_calls s cs = (outs, s')"
  shows "length outs = length cs \<and>
         tx_seq s' = tx_seq s + of_nat (length cs) \<and>
         (\<forall>i<length cs.
            case outs ! i of
              None \<Rightarrow> \<not> accepted s (fst (snd (cs ! i))) (snd (snd (cs ! i)))
            | Some d \<Rightarrow> accepted s (fst (snd (cs ! i))) (snd (snd (cs ! i))) \<and>
                frame_seq d = tx_seq s + of_nat i \<and>
                sint (frame_seq d) = signed_take_bit 31 (sint (tx_seq s) + int i))"
  using sendAutoSeq_calls_seq [OF assms]
  by (auto simp add: sint_add_of_nat split: option.splits)

text \<open>
  Three calls on a sender whose counter stands at \<^verbatim>\<open>INT32_MAX\<close>, the second with an
  empty array: the first datagram carries \<^verbatim>\<open>0x7FFFFFFF\<close>, the second call sends nothing,
  the third datagram carries \<^verbatim>\<open>0x80000001\<close>, which is \<open>- 2147483647\<close> as an
  \<^verbatim>\<open>int32_t\<close>.
\<close>

theorem auto_sequence_witness:
  "(\<exists>d. fst (sendAutoSeq_calls
        \<lparr>tx_connect = True, tx_open = True, tx_maxDoubles = 172, tx_seq = 0x7FFFFFFF,
         tx_buffer = replicate 1396 0, tx_tsOffset = 0\<rparr>
        [(\<lparr>env_host = LittleEndianHost, env_now = 10, env_sent = 28\<rparr>,
          Some [0x3FF0000000000000], 1),
         (\<lparr>env_host = LittleEndianHost, env_now = 20, env_sent = 0\<rparr>, Some [], 0),
         (\<lparr>env_host = LittleEndianHost, env_now = 30, env_sent = 28\<rparr>,
          Some [0x4000000000000000], 1)]) ! 0
        = Some d \<and> frame_seq d = 0x7FFFFFFF) \<and>
   (\<exists>d. fst (sendAutoSeq_calls
        \<lparr>tx_connect = True, tx_open = True, tx_maxDoubles = 172, tx_seq = 0x7FFFFFFF,
         tx_buffer = replicate 1396 0, tx_tsOffset = 0\<rparr>
        [(\<lparr>env_host = LittleEndianHost, env_now = 10, env_sent = 28\<rparr>,
          Some [0x3FF0000000000000], 1),
         (\<lparr>env_host = LittleEndianHost, env_now = 20, env_sent = 0\<rparr>, Some [], 0),
         (\<lparr>env_host = LittleEndianHost, env_now = 30, env_sent = 28\<rparr>,
          Some [0x4000000000000000], 1)]) ! 2
        = Some d \<and> frame_seq d = 0x80000001 \<and> sint (frame_seq d) = - 2147483647)"
proof -
  let ?s = "\<lparr>tx_connect = True, tx_open = True, tx_maxDoubles = 172, tx_seq = 0x7FFFFFFF,
         tx_buffer = replicate 1396 0, tx_tsOffset = 0\<rparr>"
  let ?cs = "[(\<lparr>env_host = LittleEndianHost, env_now = 10, env_sent = 28\<rparr>,
          Some [0x3FF0000000000000], 1),
         (\<lparr>env_host = LittleEndianHost, env_now = 20, env_sent = 0\<rparr>, Some [], 0),
         (\<lparr>env_host = LittleEndianHost, env_now = 30, env_sent = 28\<rparr>,
          Some [0x4000000000000000], 1 :: i32)]"
  obtain outs s' where run: "sendAutoSeq_calls ?s ?cs = (outs, s')"
    by (cases "sendAutoSeq_calls ?s ?cs")
  from auto_sequence [OF run] show ?thesis
    unfolding run
    by (auto simp add: All_less_Suc numeral_2_eq_2 accepted_def word_sless_alt word_sle_eq
        split: option.splits)
qed

section \<open>Default timestamps\<close>

lemma sint_elapsed:
  fixes now now0 :: i64
  assumes "sint now0 \<le> sint now" and "sint now - sint now0 < 2 ^ 63"
  shows "sint (now - now0) = sint now - sint now0"
proof -
  have "sint (now - now0) = signed_take_bit 63 (sint now - sint now0)"
    by (simp add: sint_word_diff)
  also have "\<dots> = sint now - sint now0"
    by (rule signed_take_bit_int_eq_self) (use assms in simp_all)
  finally show ?thesis .
qed

text \<open>
  Claim C7, as amended.  For every sender, under the hypotheses that the monotonic clock
  never decreases after construction and that it has advanced by less than \<open>2 ^ 63\<close>
  nanoseconds since construction (so that the 64-bit sum does not overflow), every default
  timestamp the sender puts on the wire is \<open>\<ge> 0\<close>.  The offset fixed at construction is
  the negation of the clock value at that instant if that value was negative, else zero; no
  send changes it; and the default timestamp is the clock reading plus that offset.
\<close>

theorem default_timestamp_nonneg:
  assumes "UdpDoubleSender maxDoubles connectUdp maxPayloadBytes now0 setup = Inr s0"
    and "tx_tsOffset s = tx_tsOffset s0"
    and "sendWithSeq s env dat count sq INT64_MIN = (res, s', Some d)"
    and "now0 \<le>s env_now env"
    and "sint (env_now env) - sint now0 < 2 ^ 63"
  shows "tx_tsOffset s0 = (if now0 <s 0 then - now0 else 0) \<and>
         tx_tsOffset s' = tx_tsOffset s0 \<and>
         frame_timestamp d = env_now env + tx_tsOffset s0 \<and>
         0 \<le>s frame_timestamp d"
proof -
  have off: "tx_tsOffset s0 = (if now0 <s 0 then - now0 else 0)"
    using assms(1)
    by (auto simp add: UdpDoubleSender_def Let_def initTimestampOffset_def
        split: socket_setup.splits)
  have acc: "accepted s dat count"
    using assms(3) sendWithSeq_not_accepted [of s dat count env sq INT64_MIN] by auto
  from sendWithSeq_accepted [OF acc, of env sq INT64_MIN] assms(3)
  have s': "tx_tsOffset s' = tx_tsOffset s"
    and d: "d = encode_frame (env_host env) count sq (env_now env + tx_tsOffset s) (the dat)"
    by (auto simp add: monotonicNowNanosNonNegative_def)
  have ts: "frame_timestamp d = env_now env + tx_tsOffset s0"
    by (simp add: d frame_timestamp_def header_reads assms(2))
  have le: "sint now0 \<le> sint (env_now env)"
    using assms(4) by (simp add: word_sle_eq)
  have "0 \<le> sint (env_now env + tx_tsOffset s0)"
  proof (cases "now0 <s 0")
    case True
    then have "env_now env + tx_tsOffset s0 = env_now env - now0" by (simp add: off)
    with sint_elapsed [OF le assms(5)] le show ?thesis by simp
  next
    case False
    with le show ?thesis by (simp add: off word_sless_alt)
  qed
  then show ?thesis
    by (simp add: off [symmetric] s' assms(2) ts word_sle_eq)
qed

text \<open>Constructed when the clock reads \<open>- 5\<close>; a send when it reads 100 is stamped 105.\<close>

theorem default_timestamp_nonneg_witness:
  "snd (snd (sendWithSeq
      \<lparr>tx_connect = True, tx_open = True, tx_maxDoubles = 172, tx_seq = 0,
        tx_buffer = replicate 1396 0, tx_tsOffset = 5\<rparr>
      \<lparr>env_host = LittleEndianHost, env_now = 100, env_sent = 28\<rparr>
      (Some [0x3FF0000000000000]) 1 0 INT64_MIN)) =
     Some (encode_frame LittleEndianHost 1 0 105 [0x3FF0000000000000]) \<and>
   frame_timestamp (encode_frame LittleEndianHost 1 0 105 [0x3FF0000000000000]) = 105 \<and>
   0 \<le>s frame_timestamp (encode_frame LittleEndianHost 1 0 105 [0x3FF0000000000000])"
proof -
  let ?s = "\<lparr>tx_connect = True, tx_open = True, tx_maxDoubles = 172, tx_seq = 0,
        tx_buffer = replicate 1396 0, tx_tsOffset = 5 :: i64\<rparr>"
  let ?env = "\<lparr>env_host = LittleEndianHost, env_now = 100, env_sent = 28\<rparr>"
  have off: "initTimestampOffset (- 5) = 5"
    by (simp add: initTimestampOffset_def word_sless_alt)
  have c: "UdpDoubleSender 1000 True 1400 (- 5) SocketReady = Inr ?s"
    by (simp add: construct_default off)
  have acc: "accepted ?s (Some [0x3FF0000000000000]) 1"
    by (simp add: accepted_def word_sless_alt word_sle_eq)
  have snd: "sendWithSeq ?s ?env (Some [0x3FF0000000000000]) 1 0 INT64_MIN =
      (Inr 28,
       ?s\<lparr>tx_buffer := encode_frame LittleEndianHost 1 0 105 [0x3FF0000000000000] @
           drop 28 (replicate 1396 0)\<rparr>,
       Some (encode_frame LittleEndianHost 1 0 105 [0x3FF0000000000000]))"
    by (simp add: sendWithSeq_accepted [OF acc] monotonicNowNanosNonNegative_def)
  have le: "(- 5 :: i64) \<le>s env_now ?env" by (simp add: word_sle_eq)
  have el: "sint (env_now ?env) - sint (- 5 :: i64) < 2 ^ 63" by simp
  from default_timestamp_nonneg [OF c refl snd le el] snd show ?thesis
    by (simp add: word_sle_eq)
qed

text \<open>
  The claim as written has no bound on the time elapsed.  A sender constructed when the
  clock reads \<open>- 1\<close> has offset 1; the clock does not decrease up to \<^verbatim>\<open>INT64_MAX\<close>, and
  the default timestamp of a send at that reading is \<^verbatim>\<open>INT64_MIN\<close>, below zero.
\<close>

theorem default_timestamp_counterexample:
  "UdpDoubleSender 1000 True 1400 (- 1) SocketReady =
     Inr \<lparr>tx_connect = True, tx_open = True, tx_maxDoubles = 172, tx_seq = 0,
          tx_buffer = replicate 1396 0, tx_tsOffset = 1\<rparr> \<and>
   (- 1 :: i64) \<le>s 0x7FFFFFFFFFFFFFFF \<and>
   snd (snd (sendWithSeq
      \<lparr>tx_connect = True, tx_open = True, tx_maxDoubles = 172, tx_seq = 0,
        tx_buffer = replicate 1396 0, tx_tsOffset = 1\<rparr>
      \<lparr>env_host = LittleEndianHost, env_now = 0x7FFFFFFFFFFFFFFF, env_sent = 28\<rparr>
      (Some [0x3FF0000000000000]) 1 0 INT64_MIN)) =
     Some (encode_frame LittleEndianHost 1 0 0x8000000000000000 [0x3FF0000000000000]) \<and>
   frame_timestamp (encode_frame LittleEndianHost 1 0 0x8000000000000000 [0x3FF0000000000000])
     <s 0"
proof -
  let ?s = "\<lparr>tx_connect = True, tx_open = True, tx_maxDoubles = 172, tx_seq = 0,
        tx_buffer = replicate 1396 0, tx_tsOffset = 1 :: i64\<rparr>"
  have off: "initTimestampOffset (- 1) = 1"
    by (simp add: initTimestampOffset_def word_sless_alt)
  have acc: "accepted ?s (Some [0x3FF0000000000000]) 1"
    by (simp add: accepted_def word_sless_alt word_sle_eq)
  show ?thesis
    by (simp add: construct_default off sendWithSeq_accepted [OF acc]
        monotonicNowNanosNonNegative_def frame_timestamp_def header_reads
        word_sle_eq word_sless_alt)
qed

end
